theory Spec2Isabelle
  imports Complex_Main
begin

section \<open>Python values and exceptions\<close>

text \<open>
  The values that the argument dictionary of \<^verbatim>\<open>fit.py\<close> holds: strings, booleans and
  floats. A float is modelled by the real number it denotes (rounding, infinities and NaN
  are outside the model).
\<close>

datatype pyval = PStr string | PBool bool | PFloat real

text \<open>Python's truth value of an object, as tested by \<^verbatim>\<open>if x:\<close>.\<close>

fun truthy :: "pyval \<Rightarrow> bool" where
  "truthy (PStr s) = (s \<noteq> [])"
| "truthy (PBool b) = b"
| "truthy (PFloat x) = (x \<noteq> 0)"

text \<open>
  An exception object is identified by the names of its class and of the classes that
  class inherits from (its method resolution order). The clause \<^verbatim>\<open>except C\<close> handles an
  exception exactly when \<^verbatim>\<open>C\<close> occurs in that list.
\<close>

datatype exn = Exn (mro: "string list")

definition isinstance :: "exn \<Rightarrow> string \<Rightarrow> bool" where
  "isinstance e c = (c \<in> set (mro e))"

definition OSError :: exn where
  "OSError = Exn [''OSError'', ''Exception'', ''BaseException'']"

definition FileNotFoundError :: exn where
  "FileNotFoundError = Exn [''FileNotFoundError'', ''OSError'', ''Exception'', ''BaseException'']"

definition PermissionError :: exn where
  "PermissionError = Exn [''PermissionError'', ''OSError'', ''Exception'', ''BaseException'']"


definition KeyError :: exn where
  "KeyError = Exn [''KeyError'', ''LookupError'', ''Exception'', ''BaseException'']"

definition AttributeError :: exn where
  "AttributeError = Exn [''AttributeError'', ''Exception'', ''BaseException'']"

definition ValueError :: exn where
  "ValueError = Exn [''ValueError'', ''Exception'', ''BaseException'']"

definition ZeroDivisionError :: exn where
  "ZeroDivisionError = Exn [''ZeroDivisionError'', ''ArithmeticError'', ''Exception'', ''BaseException'']"

definition SystemExit :: exn where
  "SystemExit = Exn [''SystemExit'', ''BaseException'']"


section \<open>Objects of the framework and of the sibling modules\<close>

text \<open>
  A model object of the module \<^verbatim>\<open>models\<close>: the three class attributes that
  \<^verbatim>\<open>fit.py\<close> reads. Its two methods are calls into the framework (see \<open>env\<close> below).
\<close>

record seg_model =
  MODEL_NAME :: string
  WEIGHT_PATH :: string
  FIT_HISTORY_PATH :: string

text \<open>The callback objects of the framework, with the keyword arguments they are built from.\<close>

datatype callback =
    CSVLogger (csv_filename: string) (csv_append: bool) (csv_separator: string)
  | ModelCheckpoint (mc_filepath: string) (mc_monitor: string) (mc_verbose: int)
      (mc_save_best_only: bool) (mc_mode: string) (mc_save_weights_only: bool)
  | ReduceLROnPlateau (rl_monitor: string) (rl_factor: real) (rl_patience: int)
      (rl_verbose: int) (rl_mode: string) (rl_min_delta: real) (rl_cooldown: int)
      (rl_min_lr: real)
  | EarlyStopping (es_monitor: string) (es_mode: string) (es_verbose: int) (es_patience: int)


datatype optimizer = Adam (adam_lr: pyval) (adam_decay: real)

text \<open>The \<^verbatim>\<open>history\<close> dictionary of the object that \<^verbatim>\<open>fit_generator\<close> returns.\<close>

type_synonym history = "string \<rightharpoonup> real list"

text \<open>The keyword arguments of one call of \<^verbatim>\<open>fit_generator\<close>.\<close>

record ('a, 'g) fit_generator_args =
  generator :: 'g
  steps_per_epoch :: int
  epochs :: int
  validation_data :: "'a \<times> 'a"
  callbacks :: "callback list"
  workers :: int
  max_queue_size :: int

text \<open>
  What a run records. First, every call that leaves \<^verbatim>\<open>fit.py\<close>, with its arguments (a
  data frame is a list of rows of type \<open>'r\<close>; \<open>'a\<close> are arrays, \<open>'k\<close> framework models,
  \<open>'g\<close> generators). Second, the operations of \<^verbatim>\<open>fit.py\<close> itself that can raise, recorded
  when they do: a subscript \<^verbatim>\<open>d[k]\<close> with a missing key, the lookup of a method on \<^verbatim>\<open>None\<close>,
  the floor division by zero, and \<^verbatim>\<open>np.min\<close> of nothing. Third, \<open>Caught c ev\<close>: the step \<open>ev\<close>
  raised inside a \<^verbatim>\<open>try\<close> block and the clause \<^verbatim>\<open>except c\<close> took the exception.
\<close>

datatype ('r, 'a, 'k, 'g) event =
    LoadDataset
  | GetUniqueImgIds "'r list"
  | GetBalancedDataset "'r list"
  | DropEmptyImages "'r list"
  | GetTrainValDatasets "'r list" "'r list"
  | SplitValidationDataset "'r list" pyval
  | GetClassifierModel seg_model pyval
  | GetModel seg_model pyval
  | Summary 'k
  | Print string
  | LoadWeights 'k string
  | Compile 'k optimizer string "string list"
  | MakeImageGen "'r list" pyval
  | CreateAugGen 'g pyval
  | FitGenerator 'k "('a, 'g) fit_generator_args"
  | Subscript string
  | GetAttr string
  | FloorDiv
  | NpMin
  | Caught string "('r, 'a, 'k, 'g) event"

text \<open>
  What \<^verbatim>\<open>fit.py\<close> imports: the three constants of \<^verbatim>\<open>config\<close>, the model objects that
  the registry is built from, and the functions of \<^verbatim>\<open>prepare_datasets\<close>, \<^verbatim>\<open>utils\<close> and
  the framework. None of them is defined in \<^verbatim>\<open>fit.py\<close>, so each is a parameter. A function
  acts on the outside world \<open>'w\<close> (files, the framework's own state) and either raises or
  returns. The built-in \<^verbatim>\<open>print\<close> is one of them: writing to the standard output can fail.
\<close>

record ('w, 'r, 'a, 'k, 'g) env =
  MAX_TRAIN_EPOCHS :: int
  MAX_TRAIN_STEPS :: int
  BATCH_SIZE :: int
  MODELS :: "seg_model list"
  load_dataset :: "'w \<Rightarrow> (exn + 'r list) \<times> 'w"
  get_unique_img_ids :: "'r list \<Rightarrow> 'w \<Rightarrow> (exn + 'r list) \<times> 'w"
  get_balanced_dataset :: "'r list \<Rightarrow> 'w \<Rightarrow> (exn + 'r list) \<times> 'w"
  drop_empty_images :: "'r list \<Rightarrow> 'w \<Rightarrow> (exn + 'r list) \<times> 'w"
  get_train_val_datasets :: "'r list \<Rightarrow> 'r list \<Rightarrow> 'w \<Rightarrow> (exn + 'r list \<times> 'r list) \<times> 'w"
  split_validation_dataset :: "'r list \<Rightarrow> pyval \<Rightarrow> 'w \<Rightarrow> (exn + 'a \<times> 'a) \<times> 'w"
  get_classifier_model :: "seg_model \<Rightarrow> pyval \<Rightarrow> 'w \<Rightarrow> (exn + 'k) \<times> 'w"
  get_model :: "seg_model \<Rightarrow> pyval \<Rightarrow> 'w \<Rightarrow> (exn + 'k) \<times> 'w"
  summary :: "'k \<Rightarrow> 'w \<Rightarrow> (exn + string) \<times> 'w"
  load_weights :: "'k \<Rightarrow> string \<Rightarrow> 'w \<Rightarrow> (exn + unit) \<times> 'w"
  compile :: "'k \<Rightarrow> optimizer \<Rightarrow> string \<Rightarrow> string list \<Rightarrow> 'w \<Rightarrow> (exn + unit) \<times> 'w"
  make_image_gen :: "'r list \<Rightarrow> pyval \<Rightarrow> 'w \<Rightarrow> (exn + 'g) \<times> 'w"
  create_aug_gen :: "'g \<Rightarrow> pyval \<Rightarrow> 'w \<Rightarrow> (exn + 'g) \<times> 'w"
  fit_generator :: "'k \<Rightarrow> ('a, 'g) fit_generator_args \<Rightarrow> 'w \<Rightarrow> (exn + history) \<times> 'w"
  print_line :: "string \<Rightarrow> 'w \<Rightarrow> (exn + unit) \<times> 'w"


section \<open>Program state and the exception monad\<close>

text \<open>
  The state of a run: the outside world, the steps recorded so far (each with the exception
  it raised, if any), and the argument dictionary, which is one shared object that
  \<^verbatim>\<open>load_data\<close> and \<^verbatim>\<open>fit\<close> receive by reference.
\<close>

record ('w, 'ev) pystate =
  world :: 'w
  trace :: "('ev \<times> exn option) list"
  args :: "string \<rightharpoonup> pyval"

type_synonym ('s, 'x) prog = "'s \<Rightarrow> (exn + 'x) \<times> 's"

definition return_p :: "'x \<Rightarrow> ('s, 'x) prog" where
  "return_p x = (\<lambda>s. (Inr x, s))"

definition pbind :: "('s, 'x) prog \<Rightarrow> ('x \<Rightarrow> ('s, 'y) prog) \<Rightarrow> ('s, 'y) prog" where
  "pbind m f = (\<lambda>s. case m s of (Inl e, s') \<Rightarrow> (Inl e, s') | (Inr x, s') \<Rightarrow> f x s')"

definition outcome :: "exn + 'x \<Rightarrow> exn option" where
  "outcome r = (case r of Inl e \<Rightarrow> Some e | Inr x \<Rightarrow> None)"

text \<open>A call of an imported function: it acts on the world, and the call is recorded.\<close>

definition call :: "'ev \<Rightarrow> ('w \<Rightarrow> (exn + 'x) \<times> 'w) \<Rightarrow> (('w, 'ev) pystate, 'x) prog" where
  "call ev f = (\<lambda>s. case f (world s) of
      (r, w') \<Rightarrow> (r, s\<lparr>world := w', trace := trace s @ [(ev, outcome r)]\<rparr>))"

text \<open>An operation \<open>ev\<close> of \<^verbatim>\<open>fit.py\<close> itself raises \<open>e\<close>: the exception is recorded.\<close>

definition fail :: "'ev \<Rightarrow> exn \<Rightarrow> (('w, 'ev) pystate, 'x) prog" where
  "fail ev e = (\<lambda>s. (Inl e, s\<lparr>trace := trace s @ [(ev, Some e)]\<rparr>))"

text \<open>\<^verbatim>\<open>args[k]\<close>: a missing key raises \<^verbatim>\<open>KeyError\<close>.\<close>

definition args_get :: "string \<Rightarrow> (('w, ('r, 'a, 'k, 'g) event) pystate, pyval) prog" where
  "args_get k =
    (\<lambda>s. case args s k of None \<Rightarrow> fail (Subscript k) KeyError s | Some v \<Rightarrow> (Inr v, s))"

text \<open>
  \<^verbatim>\<open>try: m except c: h\<close>. When \<open>m\<close> raises an instance of \<open>c\<close>, the step that raised it (the
  last one recorded since the block was entered) is marked as caught and \<open>h\<close> runs; any
  other exception of \<open>m\<close>, and every exception of \<open>h\<close>, is raised on.
\<close>

definition mark_caught ::
  "string \<Rightarrow> nat \<Rightarrow> (('r, 'a, 'k, 'g) event \<times> exn option) list \<Rightarrow>
     (('r, 'a, 'k, 'g) event \<times> exn option) list" where
  "mark_caught c n tr =
    (if n < length tr then butlast tr @ [(Caught c (fst (last tr)), snd (last tr))] else tr)"

definition try_except ::
  "(('w, ('r, 'a, 'k, 'g) event) pystate, 'x) prog \<Rightarrow> string \<Rightarrow>
     (('w, ('r, 'a, 'k, 'g) event) pystate, 'x) prog \<Rightarrow>
     (('w, ('r, 'a, 'k, 'g) event) pystate, 'x) prog" where
  "try_except m c h = (\<lambda>s. case m s of
      (Inl e, s') \<Rightarrow>
        if isinstance e c then h (s'\<lparr>trace := mark_caught c (length (trace s)) (trace s')\<rparr>)
        else (Inl e, s')
    | (Inr x, s') \<Rightarrow> (Inr x, s'))"

text \<open>\<^verbatim>\<open>print(msg)\<close> is a call of the built-in, which writes a line or raises.\<close>

definition py_print ::
  "('w, 'r, 'a, 'k, 'g) env \<Rightarrow> string \<Rightarrow> (('w, ('r, 'a, 'k, 'g) event) pystate, unit) prog" where
  "py_print env msg = call (Print msg) (print_line env msg)"


section \<open>The module \<^verbatim>\<open>fit.py\<close>\<close>

text \<open>
  \<^verbatim>\<open>AVAILABLE_MODELS = {model.MODEL_NAME: model for model in [...]}\<close>: the comprehension
  stores the models from left to right, a later model replacing an earlier one of the
  same name.
\<close>

definition AVAILABLE_MODELS :: "seg_model list \<Rightarrow> (string \<rightharpoonup> seg_model)" where
  "AVAILABLE_MODELS ms = foldl (\<lambda>d m. d(MODEL_NAME m \<mapsto> m)) Map.empty ms"

text \<open>\<^verbatim>\<open>AVAILABLE_MODELS.get(v)\<close>: \<^verbatim>\<open>None\<close> for a value that is not a key.\<close>

fun registry_get :: "(string \<rightharpoonup> seg_model) \<Rightarrow> pyval \<Rightarrow> seg_model option" where
  "registry_get d (PStr n) = d n"
| "registry_get d (PBool b) = None"
| "registry_get d (PFloat x) = None"

definition get_callbacks :: "seg_model \<Rightarrow> callback list" where
  "get_callbacks seg_model =
    (let csv_logger = CSVLogger (FIT_HISTORY_PATH seg_model) False '';'';
         checkpoint = ModelCheckpoint (WEIGHT_PATH seg_model) ''val_loss'' 1 True ''min'' True;
         reduceLROnPlat = ReduceLROnPlateau ''val_loss'' 0.2 1 1 ''min'' 0.001 0 (1 / 10 ^ 8);
         early = EarlyStopping ''val_loss'' ''min'' 2 15
     in [checkpoint, early, reduceLROnPlat, csv_logger])"

definition load_weight_if_possible ::
  "('w, 'r, 'a, 'k, 'g) env \<Rightarrow> seg_model \<Rightarrow> 'k \<Rightarrow> (('w, ('r, 'a, 'k, 'g) event) pystate, unit) prog" where
  "load_weight_if_possible env seg_model keras_model =
    try_except
      (pbind (call (LoadWeights keras_model (WEIGHT_PATH seg_model))
                (load_weights env keras_model (WEIGHT_PATH seg_model)))
         (\<lambda>_. py_print env ''Weights loaded!''))
      ''OSError''
      (py_print env ''No file with weights available! Starting from scratch...'')"

definition load_data ::
  "('w, 'r, 'a, 'k, 'g) env \<Rightarrow> (('w, ('r, 'a, 'k, 'g) event) pystate, 'r list \<times> 'a \<times> 'a) prog" where
  "load_data env =
    pbind (call LoadDataset (load_dataset env)) (\<lambda>df.
    pbind (call (GetUniqueImgIds df) (get_unique_img_ids env df)) (\<lambda>unique_img_ids.
    pbind (args_get ''classify_mode'') (\<lambda>c.
    pbind (if truthy c
           then call (GetBalancedDataset unique_img_ids) (get_balanced_dataset env unique_img_ids)
           else call (DropEmptyImages unique_img_ids) (drop_empty_images env unique_img_ids))
      (\<lambda>balanced_dataset.
    pbind (call (GetTrainValDatasets df balanced_dataset)
             (get_train_val_datasets env df balanced_dataset)) (\<lambda>(train_df, valid_df).
    pbind (args_get ''classify_mode'') (\<lambda>classify.
    pbind (call (SplitValidationDataset valid_df classify)
             (split_validation_dataset env valid_df classify)) (\<lambda>(valid_x, valid_y).
    return_p (train_df, valid_x, valid_y))))))))"

text \<open>
  \<^verbatim>\<open>min(MAX_TRAIN_STEPS, train_df.shape[0] // BATCH_SIZE)\<close> on Python's unbounded
  integers: floor division, which raises on a zero divisor.
\<close>

definition calc_step_count :: "int \<Rightarrow> int \<Rightarrow> int \<Rightarrow> exn + int" where
  "calc_step_count max_train_steps rows batch_size =
    (if batch_size = 0 then Inl ZeroDivisionError
     else Inr (min max_train_steps (rows div batch_size)))"

text \<open>The result of an operation \<open>ev\<close> of \<^verbatim>\<open>fit.py\<close> itself, which returns or raises.\<close>

definition lift :: "'ev \<Rightarrow> exn + 'x \<Rightarrow> (('w, 'ev) pystate, 'x) prog" where
  "lift ev r = (case r of Inl e \<Rightarrow> fail ev e | Inr x \<Rightarrow> return_p x)"

text \<open>
  \<^verbatim>\<open>seg_model.name\<close>, where \<^verbatim>\<open>seg_model\<close> is the result of the registry's \<^verbatim>\<open>get\<close>:
  on \<^verbatim>\<open>None\<close> the attribute lookup raises, before the arguments of the call are evaluated.
\<close>

definition attr_of ::
  "string \<Rightarrow> seg_model option \<Rightarrow> (('w, ('r, 'a, 'k, 'g) event) pystate, seg_model) prog" where
  "attr_of name m =
    (case m of None \<Rightarrow> fail (GetAttr name) AttributeError | Some sm \<Rightarrow> return_p sm)"

text \<open>
  \<^verbatim>\<open>fit\<close>, statement by statement. Both branches of \<^verbatim>\<open>if classify\<close> first look the method
  up on \<^verbatim>\<open>seg_model\<close> and then read \<^verbatim>\<open>args['train_only_top']\<close>; the model does these two
  steps once, before the branch, and the branch chooses the method that is called.
  \<^verbatim>\<open>keras_model.summary()\<close> returns the text that \<^verbatim>\<open>print\<close> then writes. The constructors of the
  callbacks and of the optimizer build values and do nothing else.
\<close>

definition fit ::
  "('w, 'r, 'a, 'k, 'g) env \<Rightarrow> 'r list \<Rightarrow> 'a \<Rightarrow> 'a \<Rightarrow>
     (('w, ('r, 'a, 'k, 'g) event) pystate, history list) prog" where
  "fit env train_df valid_x valid_y =
    pbind (args_get ''model_name'') (\<lambda>model_name.
    pbind (args_get ''classify_mode'') (\<lambda>classify.
    pbind (attr_of (if truthy classify then ''get_classifier_model'' else ''get_model'')
             (registry_get (AVAILABLE_MODELS (MODELS env)) model_name)) (\<lambda>seg_model.
    pbind (args_get ''train_only_top'') (\<lambda>train_only_top.
    pbind (if truthy classify
           then call (GetClassifierModel seg_model train_only_top)
                  (get_classifier_model env seg_model train_only_top)
           else call (GetModel seg_model train_only_top)
                  (get_model env seg_model train_only_top)) (\<lambda>keras_model.
    pbind (call (Summary keras_model) (summary env keras_model)) (\<lambda>text.
    pbind (py_print env text) (\<lambda>_.
    pbind (return_p (get_callbacks seg_model)) (\<lambda>callbacks_list.
    pbind (args_get ''load_weights'') (\<lambda>lw.
    pbind (if truthy lw then load_weight_if_possible env seg_model keras_model
           else return_p ()) (\<lambda>_.
    pbind (args_get ''learning_rate'') (\<lambda>learning_rate.
    pbind (call (Compile keras_model (Adam learning_rate (1 / 10 ^ 6))
                   ''binary_crossentropy'' [''accuracy''])
             (compile env keras_model (Adam learning_rate (1 / 10 ^ 6))
                   ''binary_crossentropy'' [''accuracy''])) (\<lambda>_.
    pbind (lift FloorDiv
             (calc_step_count (MAX_TRAIN_STEPS env) (int (length train_df)) (BATCH_SIZE env)))
      (\<lambda>step_count.
    pbind (call (MakeImageGen train_df classify) (make_image_gen env train_df classify)) (\<lambda>gen.
    pbind (call (CreateAugGen gen classify) (create_aug_gen env gen classify)) (\<lambda>aug_gen.
    pbind (call (FitGenerator keras_model
                   \<lparr>generator = aug_gen, steps_per_epoch = step_count,
                    epochs = MAX_TRAIN_EPOCHS env, validation_data = (valid_x, valid_y),
                    callbacks = callbacks_list, workers = 1, max_queue_size = 1\<rparr>)
             (fit_generator env keras_model
                   \<lparr>generator = aug_gen, steps_per_epoch = step_count,
                    epochs = MAX_TRAIN_EPOCHS env, validation_data = (valid_x, valid_y),
                    callbacks = callbacks_list, workers = 1, max_queue_size = 1\<rparr>)) (\<lambda>h.
    return_p [h]))))))))))))))))"


text \<open>
  \<^verbatim>\<open>[mh.history['val_loss'] for mh in loss_history]\<close>: a history without the key raises
  \<^verbatim>\<open>KeyError\<close>.
\<close>

fun val_losses :: "history list \<Rightarrow> exn + real list list" where
  "val_losses [] = Inr []"
| "val_losses (mh # rest) =
    (case mh ''val_loss'' of
       None \<Rightarrow> Inl KeyError
     | Some v \<Rightarrow> (case val_losses rest of Inl e \<Rightarrow> Inl e | Inr vs \<Rightarrow> Inr (v # vs)))"

text \<open>
  \<^verbatim>\<open>np.min\<close> of a list of lists: the least entry of all of them, and \<^verbatim>\<open>ValueError\<close> when
  there is no entry. (\<^verbatim>\<open>fit\<close> returns one history, so the rows always form a rectangle.)
\<close>

definition np_min :: "real list list \<Rightarrow> exn + real" where
  "np_min xss = (case concat xss of [] \<Rightarrow> Inl ValueError | y # ys \<Rightarrow> Inr (fold min ys y))"

text \<open>
  The loop \<^verbatim>\<open>while True: ...\<close> of the main block. It has no bound on the number of
  rounds, so a run that never leaves it has the value \<open>None\<close>. \<^verbatim>\<open>gc.collect()\<close> changes
  nothing that the program reads and is left out.
\<close>

partial_function (option) main_loop ::
  "('w, 'r, 'a, 'k, 'g) env \<Rightarrow> 'r list \<Rightarrow> 'a \<Rightarrow> 'a \<Rightarrow> ('w, ('r, 'a, 'k, 'g) event) pystate \<Rightarrow>
     ((exn + unit) \<times> ('w, ('r, 'a, 'k, 'g) event) pystate) option" where
  "main_loop env train_df valid_x valid_y s =
    (case fit env train_df valid_x valid_y s of
       (Inl e, s') \<Rightarrow> Some (Inl e, s')
     | (Inr loss_history, s') \<Rightarrow>
         (case pbind (lift (Subscript ''val_loss'') (val_losses loss_history))
                 (\<lambda>vs. lift NpMin (np_min vs)) s' of
            (Inl e, s'') \<Rightarrow> Some (Inl e, s'')
          | (Inr m, s'') \<Rightarrow>
              if m < 0.2 then Some (Inr (), s'')
              else main_loop env train_df valid_x valid_y s''))"


section \<open>The command line\<close>

text \<open>
  The arguments as \<^verbatim>\<open>add_argument\<close> declares them: the option strings, the action, the
  \<^verbatim>\<open>type\<close> and the default.
\<close>

datatype action = Store | StoreTrue

datatype argtype = TStr | TFloat

record argument =
  option_strings :: "string list"
  action :: action
  argtype :: argtype
  arg_default :: pyval

definition ap :: "argument list" where
  "ap =
    [\<lparr>option_strings = [''-mn'', ''--model_name''], action = Store, argtype = TStr,
      arg_default = PStr ''simple_unet''\<rparr>,
     \<lparr>option_strings = [''-lr'', ''--learning_rate''], action = Store, argtype = TFloat,
      arg_default = PFloat 0.001\<rparr>,
     \<lparr>option_strings = [''-tt'', ''--train_only_top''], action = StoreTrue, argtype = TStr,
      arg_default = PBool False\<rparr>,
     \<lparr>option_strings = [''-cl'', ''--classify_mode''], action = StoreTrue, argtype = TStr,
      arg_default = PBool False\<rparr>,
     \<lparr>option_strings = [''-lw'', ''--load_weights''], action = StoreTrue, argtype = TStr,
      arg_default = PBool False\<rparr>]"

text \<open>
  The key under which an argument is stored: the first long option string without its
  dashes, inner dashes replaced by underscores; the first short one if there is no long one.
\<close>

definition dest :: "argument \<Rightarrow> string" where
  "dest a =
    (let name = (case filter (\<lambda>f. take 2 f = ''--'') (option_strings a) of
                   f # _ \<Rightarrow> drop 2 f
                 | [] \<Rightarrow> (case option_strings a of f # _ \<Rightarrow> drop 1 f | [] \<Rightarrow> []))
     in map (\<lambda>c. if c = CHR ''-'' then CHR ''_'' else c) name)"

text \<open>\<^verbatim>\<open>type=float\<close> applies the string-to-float conversion \<open>to_float\<close>; without \<^verbatim>\<open>type\<close> the string is kept.\<close>

fun convert :: "(string \<Rightarrow> real option) \<Rightarrow> argtype \<Rightarrow> string \<Rightarrow> pyval option" where
  "convert to_float TStr v = Some (PStr v)"
| "convert to_float TFloat v = map_option PFloat (to_float v)"

text \<open>
  How the library reads a command line (which tokens it takes for which option, with
  abbreviations, \<^verbatim>\<open>--opt=value\<close>, negative numbers and its help option) is the library's
  own code and a parameter here: \<open>scan\<close> gives, for the declared arguments and the
  tokens, the arguments whose actions the library runs, in order, each with the argument
  string it was given, or it ends the program. What the actions of \<^verbatim>\<open>fit.py\<close>'s arguments
  then do is fixed by their declarations: \<^verbatim>\<open>store\<close> converts its argument string and stores
  it under the key, \<^verbatim>\<open>store_true\<close> takes no argument and stores \<^verbatim>\<open>True\<close>. An argument string
  that does not convert ends the program.
\<close>

type_synonym scanner = "argument list \<Rightarrow> string list \<Rightarrow> exn + (argument \<times> string option) list"

fun run_action ::
  "(string \<Rightarrow> real option) \<Rightarrow> argument \<Rightarrow> string option \<Rightarrow> (string \<rightharpoonup> pyval) \<Rightarrow>
     exn + (string \<rightharpoonup> pyval)" where
  "run_action to_float a None ns =
    (case action a of
       StoreTrue \<Rightarrow> Inr (ns(dest a \<mapsto> PBool True))
     | Store \<Rightarrow> Inl SystemExit)"
| "run_action to_float a (Some v) ns =
    (case action a of
       StoreTrue \<Rightarrow> Inl SystemExit
     | Store \<Rightarrow>
         (case convert to_float (argtype a) v of
            None \<Rightarrow> Inl SystemExit
          | Some x \<Rightarrow> Inr (ns(dest a \<mapsto> x))))"

fun run_actions ::
  "(string \<Rightarrow> real option) \<Rightarrow> (argument \<times> string option) list \<Rightarrow> (string \<rightharpoonup> pyval) \<Rightarrow>
     exn + (string \<rightharpoonup> pyval)" where
  "run_actions to_float [] ns = Inr ns"
| "run_actions to_float ((a, v) # rest) ns =
    (case run_action to_float a v ns of
       Inl e \<Rightarrow> Inl e
     | Inr ns' \<Rightarrow> run_actions to_float rest ns')"

text \<open>\<^verbatim>\<open>vars(ap.parse_args())\<close>: every argument starts at its default.\<close>

definition parse_args ::
  "(string \<Rightarrow> real option) \<Rightarrow> scanner \<Rightarrow> string list \<Rightarrow> exn + (string \<rightharpoonup> pyval)" where
  "parse_args to_float scan argv =
    (case scan ap argv of
       Inl e \<Rightarrow> Inl e
     | Inr acts \<Rightarrow>
         run_actions to_float acts
           (foldl (\<lambda>ns a. ns(dest a \<mapsto> arg_default a)) Map.empty ap))"

text \<open>The main block: parse the command line, load the data, run the loop.\<close>

definition main ::
  "('w, 'r, 'a, 'k, 'g) env \<Rightarrow> (string \<Rightarrow> real option) \<Rightarrow> scanner \<Rightarrow> string list \<Rightarrow>
     ('w, ('r, 'a, 'k, 'g) event) pystate \<Rightarrow>
     ((exn + unit) \<times> ('w, ('r, 'a, 'k, 'g) event) pystate) option" where
  "main env to_float scan argv s =
    (case parse_args to_float scan argv of
       Inl e \<Rightarrow> Some (Inl e, s)
     | Inr a \<Rightarrow>
         (case load_data env (s\<lparr>args := a\<rparr>) of
            (Inl e, s') \<Rightarrow> Some (Inl e, s')
          | (Inr (train_df, valid_x, valid_y), s') \<Rightarrow> main_loop env train_df valid_x valid_y s'))"


section \<open>Properties of runs\<close>

text \<open>
  \<open>emits P p\<close>: a run of \<open>p\<close> leaves the argument dictionary as it was and only adds
  steps that satisfy \<open>P\<close> to the record.
\<close>

definition emits :: "('ev \<times> exn option \<Rightarrow> bool) \<Rightarrow> (('w, 'ev) pystate, 'x) prog \<Rightarrow> bool" where
  "emits P p = (\<forall>s r s'. p s = (r, s') \<longrightarrow>
      args s' = args s \<and> (\<exists>new. trace s' = trace s @ new \<and> list_all P new))"

text \<open>
  A recorded step is \<open>handled\<close> when it returned, or when its exception was caught.
\<close>

fun handled :: "('r, 'a, 'k, 'g) event \<times> exn option \<Rightarrow> bool" where
  "handled (ev, None) = True"
| "handled (Caught c ev, Some e) = True"
| "handled (ev, Some e) = False"

text \<open>
  \<open>propagated r new\<close>, for the result \<open>r\<close> of a run and the steps \<open>new\<close> that it recorded:
  either the run returns and every step is handled, or the run ends with an exception
  \<open>e\<close>, the last step is the one that raised \<open>e\<close>, it was not caught, and every step before
  it is handled. So an exception that is raised and not caught ends the run and is its
  result, and a run does not end with an exception that no step raised.
\<close>

definition propagated :: "exn + 'x \<Rightarrow> (('r, 'a, 'k, 'g) event \<times> exn option) list \<Rightarrow> bool" where
  "propagated r new =
    (case r of
       Inr x \<Rightarrow> list_all handled new
     | Inl e \<Rightarrow> (\<exists>pre ev. new = pre @ [(ev, Some e)] \<and> list_all handled pre \<and>
                   \<not> handled (ev, Some e)))"

definition propagates :: "(('w, ('r, 'a, 'k, 'g) event) pystate, 'x) prog \<Rightarrow> bool" where
  "propagates p = (\<forall>s r s'. p s = (r, s') \<longrightarrow>
      (\<exists>new. trace s' = trace s @ new \<and> propagated r new))"

text \<open>
  The steps that the handler of \<^verbatim>\<open>load_weight_if_possible\<close> can catch: the two statements of
  its \<^verbatim>\<open>try\<close> block, raising an instance of \<^verbatim>\<open>OSError\<close>.
\<close>

definition caught_ok :: "('r, 'a, 'k, 'g) event \<times> exn option \<Rightarrow> bool" where
  "caught_ok x =
    (case fst x of
       Caught c ev \<Rightarrow>
         c = ''OSError'' \<and> (\<exists>e. snd x = Some e \<and> isinstance e ''OSError'') \<and>
         ((\<exists>k p. ev = LoadWeights k p) \<or> ev = Print ''Weights loaded!'')
     | _ \<Rightarrow> True)"





text \<open>
  The argument strings that the actions run for the key \<open>k\<close> were given, in the order of
  the command line.
\<close>

definition given :: "string \<Rightarrow> (argument \<times> string option) list \<Rightarrow> string list" where
  "given k acts =
    concat (map (\<lambda>(a, v). if dest a = k then (case v of None \<Rightarrow> [] | Some x \<Rightarrow> [x]) else [])
              acts)"

text \<open>The namespace before the first action runs.\<close>

definition ap_default_map :: "string \<rightharpoonup> pyval" where
  "ap_default_map =
     [''model_name'' \<mapsto> PStr ''simple_unet'', ''learning_rate'' \<mapsto> PFloat 0.001,
      ''train_only_top'' \<mapsto> PBool False, ''classify_mode'' \<mapsto> PBool False,
      ''load_weights'' \<mapsto> PBool False]"


section \<open>A concrete environment\<close>

text \<open>
  One model, a data set of four rows, a weights file that exists but cannot be read, and a
  framework whose first training round ends with a validation loss of 0.5 and whose later
  rounds end with 0.1. The world counts the training rounds.
\<close>

definition stub_model :: seg_model where
  "stub_model = \<lparr>MODEL_NAME = ''simple_unet'', WEIGHT_PATH = ''simple_unet.h5'',
     FIT_HISTORY_PATH = ''simple_unet.csv''\<rparr>"

definition stub_env :: "(nat, unit, unit, unit, unit) env" where
  "stub_env = \<lparr>MAX_TRAIN_EPOCHS = 99, MAX_TRAIN_STEPS = 200, BATCH_SIZE = 2,
     MODELS = [stub_model],
     load_dataset = (\<lambda>w. (Inr [(), (), (), ()], w)),
     get_unique_img_ids = (\<lambda>df w. (Inr df, w)),
     get_balanced_dataset = (\<lambda>ids w. (Inr (take 2 ids), w)),
     drop_empty_images = (\<lambda>ids w. (Inr (take 3 ids), w)),
     get_train_val_datasets = (\<lambda>df bal w. (Inr (bal, take 1 df), w)),
     split_validation_dataset = (\<lambda>valid_df c w. (Inr ((), ()), w)),
     get_classifier_model = (\<lambda>m t w. (Inr (), w)),
     get_model = (\<lambda>m t w. (Inr (), w)),
     summary = (\<lambda>k w. (Inr ''None'', w)),
     load_weights = (\<lambda>k p w. (Inl PermissionError, w)),
     compile = (\<lambda>k opt l ms w. (Inr (), w)),
     make_image_gen = (\<lambda>df c w. (Inr (), w)),
     create_aug_gen = (\<lambda>g c w. (Inr (), w)),
     fit_generator = (\<lambda>k fa w. (Inr [''val_loss'' \<mapsto> [if w = 0 then 0.5 else 0.1]], Suc w)),
     print_line = (\<lambda>msg w. (Inr (), w))\<rparr>"

definition stub_args :: "string \<rightharpoonup> pyval" where
  "stub_args = [''model_name'' \<mapsto> PStr ''simple_unet'', ''learning_rate'' \<mapsto> PFloat 0.001,
     ''train_only_top'' \<mapsto> PBool False, ''classify_mode'' \<mapsto> PBool False,
     ''load_weights'' \<mapsto> PBool True]"

definition stub_state :: "(nat, (unit, unit, unit, unit) event) pystate" where
  "stub_state = \<lparr>world = 0, trace = [], args = stub_args\<rparr>"

definition stub_load_events :: "((unit, unit, unit, unit) event \<times> exn option) list" where
  "stub_load_events =
    [(LoadDataset, None), (GetUniqueImgIds [(), (), (), ()], None),
     (DropEmptyImages [(), (), (), ()], None),
     (GetTrainValDatasets [(), (), (), ()] [(), (), ()], None),
     (SplitValidationDataset [()] (PBool False), None)]"

definition stub_fit_args :: "(unit, unit) fit_generator_args" where
  "stub_fit_args = \<lparr>generator = (), steps_per_epoch = 1, epochs = 99,
     validation_data = ((), ()), callbacks = get_callbacks stub_model,
     workers = 1, max_queue_size = 1\<rparr>"

definition stub_fit_events :: "((unit, unit, unit, unit) event \<times> exn option) list" where
  "stub_fit_events =
    [(GetModel stub_model (PBool False), None),
     (Summary (), None),
     (Print ''None'', None),
     (Caught ''OSError'' (LoadWeights () ''simple_unet.h5''), Some PermissionError),
     (Print ''No file with weights available! Starting from scratch...'', None),
     (Compile () (Adam (PFloat 0.001) (1 / 10 ^ 6)) ''binary_crossentropy'' [''accuracy''], None),
     (MakeImageGen [(), (), ()] (PBool False), None),
     (CreateAugGen () (PBool False), None),
     (FitGenerator () stub_fit_args, None)]"

definition stub_to_float :: "string \<Rightarrow> real option" where
  "stub_to_float v = (if v = ''0.01'' then Some 0.01 else None)"

text \<open>
  A scanner that knows the option strings written in full, with the value of an option in
  the next token.
\<close>

fun stub_scan :: scanner where
  "stub_scan decls [] = Inr []"
| "stub_scan decls [t] =
    (case find (\<lambda>a. t \<in> set (option_strings a)) decls of
       None \<Rightarrow> Inl SystemExit
     | Some a \<Rightarrow> (case action a of StoreTrue \<Rightarrow> Inr [(a, None)] | Store \<Rightarrow> Inl SystemExit))"
| "stub_scan decls (t # v # ts) =
    (case find (\<lambda>a. t \<in> set (option_strings a)) decls of
       None \<Rightarrow> Inl SystemExit
     | Some a \<Rightarrow>
         (case action a of
            StoreTrue \<Rightarrow> map_sum id ((#) (a, None)) (stub_scan decls (v # ts))
          | Store \<Rightarrow> map_sum id ((#) (a, Some v)) (stub_scan decls ts)))"



section \<open>Rules for the monad\<close>

lemmas prog_defs = pbind_def call_def args_get_def return_p_def fail_def lift_def attr_of_def
  try_except_def py_print_def outcome_def mark_caught_def

lemma mark_caught_append:
  "mark_caught c (length tr) (tr @ n) =
     tr @ (if n = [] then [] else butlast n @ [(Caught c (fst (last n)), snd (last n))])"
  by (simp add: mark_caught_def butlast_append)

subsection \<open>Steps added and the argument dictionary\<close>

lemma emitsD:
  "emits P p \<Longrightarrow> p s = (r, s') \<Longrightarrow>
     args s' = args s \<and> (\<exists>new. trace s' = trace s @ new \<and> list_all P new)"
  unfolding emits_def by blast

lemma emits_return: "emits P (return_p x)"
  by (simp add: emits_def return_p_def)

lemma emits_fail: "P (ev, Some e) \<Longrightarrow> emits P (fail ev e)"
  by (auto simp: emits_def fail_def)

lemma emits_lift: "(\<And>e. P (ev, Some e)) \<Longrightarrow> emits P (lift ev r)"
  by (cases r) (simp_all add: lift_def emits_fail emits_return)

lemma emits_args_get: "P (Subscript k, Some KeyError) \<Longrightarrow> emits P (args_get k)"
  by (auto simp: emits_def args_get_def fail_def split: option.splits)

lemma emits_attr_of: "P (GetAttr name, Some AttributeError) \<Longrightarrow> emits P (attr_of name m)"
  by (cases m) (simp_all add: attr_of_def emits_fail emits_return)

lemma emits_call: "(\<And>out. P (ev, out)) \<Longrightarrow> emits P (call ev f)"
  by (auto simp: emits_def call_def split: prod.splits)

lemma emits_print: "(\<And>out. P (Print msg, out)) \<Longrightarrow> emits P (py_print env msg)"
  unfolding py_print_def by (rule emits_call)

lemma emits_bind:
  assumes "emits P m" and "\<And>x s s'. m s = (Inr x, s') \<Longrightarrow> emits P (f x)"
  shows "emits P (pbind m f)"
  unfolding emits_def
proof (intro allI impI)
  fix s r s' assume run: "pbind m f s = (r, s')"
  obtain r1 s1 where m: "m s = (r1, s1)" by (cases "m s")
  from emitsD[OF assms(1) m] obtain n1 where a1: "args s1 = args s"
    and t1: "trace s1 = trace s @ n1" and p1: "list_all P n1" by blast
  show "args s' = args s \<and> (\<exists>new. trace s' = trace s @ new \<and> list_all P new)"
  proof (cases r1)
    case (Inl e)
    with run m have "s' = s1" by (simp add: pbind_def)
    with a1 t1 p1 show ?thesis by auto
  next
    case (Inr x)
    with run m have fx: "f x s1 = (r, s')" by (simp add: pbind_def)
    from assms(2) m Inr have "emits P (f x)" by simp
    from emitsD[OF this fx] obtain n2 where "args s' = args s1" "trace s' = trace s1 @ n2"
      "list_all P n2" by blast
    with a1 t1 p1 show ?thesis by auto
  qed
qed

text \<open>
  The block of a \<^verbatim>\<open>try\<close> adds steps that satisfy \<open>Q\<close>; what the whole statement adds
  satisfies \<open>P\<close> when \<open>P\<close> holds of these steps, also of one of them marked as caught.
\<close>

lemma emits_try_gen:
  assumes m: "emits Q m" and h: "emits P h"
    and QP: "\<And>x. Q x \<Longrightarrow> P x"
    and QC: "\<And>ev out. Q (ev, out) \<Longrightarrow> P (Caught c ev, out)"
  shows "emits P (try_except m c h)"
  unfolding emits_def
proof (intro allI impI)
  fix s r s' assume run: "try_except m c h s = (r, s')"
  obtain r1 s1 where ms: "m s = (r1, s1)" by (cases "m s")
  from emitsD[OF m ms] obtain n1 where a1: "args s1 = args s"
    and t1: "trace s1 = trace s @ n1" and q1: "list_all Q n1" by blast
  from q1 QP have p1: "list_all P n1" by (auto simp: list_all_iff)
  show "args s' = args s \<and> (\<exists>new. trace s' = trace s @ new \<and> list_all P new)"
  proof (cases "\<exists>e. r1 = Inl e \<and> isinstance e c")
    case True
    define n1' where "n1' = (if n1 = [] then [] else butlast n1 @ [(Caught c (fst (last n1)), snd (last n1))])"
    let ?s1 = "s1\<lparr>trace := mark_caught c (length (trace s)) (trace s1)\<rparr>"
    have t1': "trace ?s1 = trace s @ n1'"
      by (simp add: t1 mark_caught_append n1'_def)
    have p1': "list_all P n1'"
    proof (cases "n1 = []")
      case True
      then show ?thesis by (simp add: n1'_def)
    next
      case False
      from q1 have qb: "list_all Q (butlast n1)"
        by (auto simp: list_all_iff dest: in_set_butlastD)
      from q1 False have ql: "Q (last n1)" by (auto simp: list_all_iff)
      from ql have "Q (fst (last n1), snd (last n1))" by simp
      then have "P (Caught c (fst (last n1)), snd (last n1))" by (rule QC)
      moreover from qb QP have "list_all P (butlast n1)" by (auto simp: list_all_iff)
      ultimately show ?thesis using False by (simp add: n1'_def)
    qed
    from True run ms have hs: "h ?s1 = (r, s')" by (auto simp: try_except_def)
    from emitsD[OF h hs] obtain n2 where "args s' = args ?s1" "trace s' = trace ?s1 @ n2"
      "list_all P n2" by blast
    with a1 t1' p1' have "args s' = args s \<and> trace s' = trace s @ (n1' @ n2) \<and> list_all P (n1' @ n2)"
      by simp
    then show ?thesis by blast
  next
    case False
    with run ms have "s' = s1" by (cases r1) (auto simp: try_except_def)
    with a1 t1 p1 show ?thesis by auto
  qed
qed

lemma emits_try:
  assumes "emits P m" and "emits P h" and "\<And>ev out. P (ev, out) \<Longrightarrow> P (Caught c ev, out)"
  shows "emits P (try_except m c h)"
  using assms(1,2) _ assms(3) by (rule emits_try_gen)

lemma emits_if: "(c \<Longrightarrow> emits P a) \<Longrightarrow> (\<not> c \<Longrightarrow> emits P b) \<Longrightarrow> emits P (if c then a else b)"
  by simp

lemma emits_case_prod: "(\<And>a b. x = (a, b) \<Longrightarrow> emits P (f a b)) \<Longrightarrow> emits P (case_prod f x)"
  by (cases x) simp

lemmas emits_intros = emits_return emits_fail emits_lift emits_args_get emits_attr_of
  emits_print emits_call emits_bind emits_try emits_if emits_case_prod

lemma emits_True_load_data: "emits (\<lambda>x. True) (load_data env)"
  unfolding load_data_def by (intro emits_intros) simp_all

lemma emits_True_fit: "emits (\<lambda>x. True) (fit env train_df valid_x valid_y)"
  unfolding fit_def load_weight_if_possible_def by (intro emits_intros) simp_all

lemma load_data_args: "load_data env s = (r, s') \<Longrightarrow> args s' = args s"
  by (drule emitsD[OF emits_True_load_data]) simp

lemma fit_args: "fit env train_df valid_x valid_y s = (r, s') \<Longrightarrow> args s' = args s"
  by (drule emitsD[OF emits_True_fit]) simp

subsection \<open>Propagation of exceptions\<close>

lemma propagated_Inr [simp]: "propagated (Inr x) new = list_all handled new"
  by (simp add: propagated_def)

lemma propagated_Inl:
  "propagated (Inl e) new =
     (\<exists>pre ev. new = pre @ [(ev, Some e)] \<and> list_all handled pre \<and> \<not> handled (ev, Some e))"
  by (simp add: propagated_def)

lemma propagated_Inl_any:
  "propagated (Inl e :: exn + 'x) new \<Longrightarrow> propagated (Inl e :: exn + 'y) new"
  by (simp add: propagated_def)

lemma propagated_append:
  assumes "list_all handled n1" and "propagated r n2"
  shows "propagated r (n1 @ n2)"
proof (cases r)
  case (Inr x)
  with assms show ?thesis by simp
next
  case (Inl e)
  from assms(2)[unfolded Inl propagated_Inl] obtain pre ev where "n2 = pre @ [(ev, Some e)]"
    "list_all handled pre" "\<not> handled (ev, Some e)" by blast
  with assms(1) have "n1 @ n2 = (n1 @ pre) @ [(ev, Some e)] \<and> list_all handled (n1 @ pre) \<and>
      \<not> handled (ev, Some e)" by simp
  then have "propagated (Inl e :: exn + 'f) (n1 @ n2)" unfolding propagated_Inl by blast
  with Inl show ?thesis by simp
qed

lemma propagatesD:
  "propagates p \<Longrightarrow> p s = (r, s') \<Longrightarrow> \<exists>new. trace s' = trace s @ new \<and> propagated r new"
  unfolding propagates_def by blast

lemma propagates_return: "propagates (return_p x)"
  by (simp add: propagates_def return_p_def)

lemma propagated_single: "\<not> handled (ev, Some e) \<Longrightarrow> propagated (Inl e) [(ev, Some e)]"
  unfolding propagated_Inl by (intro exI[of _ "[]"] exI[of _ ev]) simp

lemma propagates_fail:
  assumes "\<not> handled (ev, Some e)"
  shows "propagates (fail ev e)"
  unfolding propagates_def
proof (intro allI impI)
  fix s r s' assume "fail ev e s = (r, s')"
  then have "trace s' = trace s @ [(ev, Some e)]" and "r = Inl e"
    by (auto simp: fail_def)
  with propagated_single[OF assms] show "\<exists>new. trace s' = trace s @ new \<and> propagated r new"
    by blast
qed

lemma propagates_lift:
  "(\<And>e. \<not> handled (ev, Some e)) \<Longrightarrow> propagates (lift ev r)"
  by (cases r) (simp_all add: lift_def propagates_fail propagates_return)

lemma propagates_args_get: "propagates (args_get k)"
  unfolding propagates_def
proof (intro allI impI)
  fix s r s' assume run: "args_get k s = (r, s')"
  show "\<exists>new. trace s' = trace s @ new \<and> propagated r new"
  proof (cases "args s k")
    case None
    with run have "trace s' = trace s @ [(Subscript k, Some KeyError)]" and "r = Inl KeyError"
      by (auto simp: args_get_def fail_def)
    moreover have "propagated (Inl KeyError) [(Subscript k, Some KeyError)]"
      by (rule propagated_single) simp
    ultimately show ?thesis by blast
  next
    case (Some v)
    with run have "s' = s" and "r = Inr v" by (auto simp: args_get_def)
    then show ?thesis by simp
  qed
qed

lemma propagates_attr_of: "propagates (attr_of name m)"
  by (cases m) (simp_all add: attr_of_def propagates_fail propagates_return)

lemma propagates_call:
  assumes "\<And>e. \<not> handled (ev, Some e)"
  shows "propagates (call ev f)"
  unfolding propagates_def
proof (intro allI impI)
  fix s r s' assume run: "call ev f s = (r, s')"
  then have t: "trace s' = trace s @ [(ev, outcome r)]"
    by (auto simp: call_def split: prod.splits)
  have "propagated r [(ev, outcome r)]"
  proof (cases r)
    case (Inr x)
    then show ?thesis by (simp add: outcome_def)
  next
    case (Inl e)
    with propagated_single[OF assms] show ?thesis by (simp add: outcome_def)
  qed
  with t show "\<exists>new. trace s' = trace s @ new \<and> propagated r new" by blast
qed

lemma propagates_print: "propagates (py_print env msg)"
  unfolding py_print_def by (rule propagates_call) simp

lemma propagates_bind:
  assumes "propagates m" and "\<And>x. propagates (f x)"
  shows "propagates (pbind m f)"
  unfolding propagates_def
proof (intro allI impI)
  fix s r s' assume run: "pbind m f s = (r, s')"
  obtain r1 s1 where m: "m s = (r1, s1)" by (cases "m s")
  from propagatesD[OF assms(1) m] obtain n1 where t1: "trace s1 = trace s @ n1"
    and p1: "propagated r1 n1" by blast
  show "\<exists>new. trace s' = trace s @ new \<and> propagated r new"
  proof (cases r1)
    case (Inl e)
    with run m have "s' = s1" "r = Inl e" by (simp_all add: pbind_def)
    with t1 propagated_Inl_any[of e n1] p1 Inl show ?thesis by auto
  next
    case (Inr x)
    with run m have fx: "f x s1 = (r, s')" by (simp add: pbind_def)
    from propagatesD[OF assms(2) fx] obtain n2 where t2: "trace s' = trace s1 @ n2"
      and p2: "propagated r n2" by blast
    from p1 Inr have "list_all handled n1" by simp
    from propagated_append[OF this p2] t1 t2 show ?thesis by auto
  qed
qed

lemma propagates_try:
  assumes "propagates m" and "propagates h"
  shows "propagates (try_except m c h)"
  unfolding propagates_def
proof (intro allI impI)
  fix s r s' assume run: "try_except m c h s = (r, s')"
  obtain r1 s1 where ms: "m s = (r1, s1)" by (cases "m s")
  from propagatesD[OF assms(1) ms] obtain n1 where t1: "trace s1 = trace s @ n1"
    and p1: "propagated r1 n1" by blast
  show "\<exists>new. trace s' = trace s @ new \<and> propagated r new"
  proof (cases r1)
    case (Inr x)
    with run ms have "s' = s1" "r = Inr x" by (simp_all add: try_except_def)
    with t1 p1 Inr show ?thesis by auto
  next
    case (Inl e)
    show ?thesis
    proof (cases "isinstance e c")
      case False
      with run ms Inl have "s' = s1" "r = Inl e" by (simp_all add: try_except_def)
      with t1 propagated_Inl_any[of e n1] p1 Inl show ?thesis by auto
    next
      case True
      from p1[unfolded Inl propagated_Inl] obtain pre ev where n1: "n1 = pre @ [(ev, Some e)]"
        and hp: "list_all handled pre" by blast
      let ?s1 = "s1\<lparr>trace := mark_caught c (length (trace s)) (trace s1)\<rparr>"
      have t1': "trace ?s1 = trace s @ (pre @ [(Caught c ev, Some e)])"
        by (simp add: t1 mark_caught_append n1)
      from hp have h1: "list_all handled (pre @ [(Caught c ev, Some e)])" by simp
      from True run ms Inl have hs: "h ?s1 = (r, s')" by (simp add: try_except_def)
      from propagatesD[OF assms(2) hs] obtain n2 where t2: "trace s' = trace ?s1 @ n2"
        and p2: "propagated r n2" by blast
      from propagated_append[OF h1 p2] t1' t2 show ?thesis by auto
    qed
  qed
qed

lemma propagates_if:
  "(c \<Longrightarrow> propagates a) \<Longrightarrow> (\<not> c \<Longrightarrow> propagates b) \<Longrightarrow> propagates (if c then a else b)"
  by simp

lemma propagates_case_prod: "(\<And>a b. propagates (f a b)) \<Longrightarrow> propagates (case_prod f x)"
  by (cases x) simp

lemmas propagates_intros = propagates_return propagates_lift propagates_args_get
  propagates_attr_of propagates_print propagates_call propagates_bind propagates_try
  propagates_if propagates_case_prod


lemma propagates_fit: "propagates (fit env train_df valid_x valid_y)"
  unfolding fit_def load_weight_if_possible_def by (intro propagates_intros) simp_all

lemma propagates_loop_test:
  "propagates (pbind (lift (Subscript ''val_loss'') (val_losses lh)) (\<lambda>vs. lift NpMin (np_min vs)))"
  by (intro propagates_intros) simp_all

subsection \<open>The registry and the call of the training entry point\<close>
















lemma registry_get_None:
  "v \<notin> PStr ` dom d \<Longrightarrow> registry_get d v = None"
  by (cases v) auto

subsection \<open>Runs that return\<close>







subsection \<open>What is caught\<close>

lemma emits_try_block:
  "emits (\<lambda>x. (\<exists>p. fst x = LoadWeights k p) \<or> fst x = Print ''Weights loaded!'')
     (pbind (call (LoadWeights k (WEIGHT_PATH m)) (load_weights env k (WEIGHT_PATH m)))
        (\<lambda>_. py_print env ''Weights loaded!''))"
  by (intro emits_intros) simp_all

lemma load_weight_if_possible_steps:
  assumes "load_weight_if_possible env m k s = (r, s')"
  shows "\<exists>new. trace s' = trace s @ new \<and> list_all caught_ok new"
proof -
  let ?blk = "pbind (call (LoadWeights k (WEIGHT_PATH m)) (load_weights env k (WEIGHT_PATH m)))
        (\<lambda>_. py_print env ''Weights loaded!'')"
  let ?h = "py_print env ''No file with weights available! Starting from scratch...''"
  let ?Q = "\<lambda>x. (\<exists>p. fst x = LoadWeights k p) \<or> fst x = Print ''Weights loaded!''"
  obtain r1 s1 where b: "?blk s = (r1, s1)" by (cases "?blk s")
  from emitsD[OF emits_try_block b] obtain n1 where t1: "trace s1 = trace s @ n1"
    and q1: "list_all ?Q n1" by blast
  have "propagates ?blk" by (intro propagates_intros) simp_all
  from propagatesD[OF this b] t1 have p1: "propagated r1 n1" by simp
  from q1 have c1: "list_all caught_ok n1"
    by (auto simp: list_all_iff caught_ok_def split: event.splits)
  show ?thesis
  proof (cases "\<exists>e. r1 = Inl e \<and> isinstance e ''OSError''")
    case False
    with assms b have "s' = s1"
      by (cases r1) (auto simp: load_weight_if_possible_def try_except_def)
    with t1 c1 show ?thesis by blast
  next
    case True
    then obtain e where r1: "r1 = Inl e" and os: "isinstance e ''OSError''" by blast
    from p1[unfolded r1 propagated_Inl] obtain pre ev where n1: "n1 = pre @ [(ev, Some e)]" by blast
    let ?s1 = "s1\<lparr>trace := mark_caught ''OSError'' (length (trace s)) (trace s1)\<rparr>"
    have t1': "trace ?s1 = trace s @ (pre @ [(Caught ''OSError'' ev, Some e)])"
      by (simp add: t1 mark_caught_append n1)
    from q1 n1 have "?Q (ev, Some e)" by simp
    with os have "caught_ok (Caught ''OSError'' ev, Some e)" by (auto simp: caught_ok_def)
    moreover from c1 n1 have "list_all caught_ok pre" by simp
    ultimately have c1': "list_all caught_ok (pre @ [(Caught ''OSError'' ev, Some e)])" by simp
    from assms b r1 os have hs: "?h ?s1 = (r, s')"
      by (simp add: load_weight_if_possible_def try_except_def)
    have "emits caught_ok ?h" by (intro emits_intros) (simp add: caught_ok_def)
    from emitsD[OF this hs] obtain n2 where "trace s' = trace ?s1 @ n2" "list_all caught_ok n2"
      by blast
    with t1' c1' have "trace s' = trace s @ ((pre @ [(Caught ''OSError'' ev, Some e)]) @ n2) \<and>
        list_all caught_ok ((pre @ [(Caught ''OSError'' ev, Some e)]) @ n2)" by simp
    then show ?thesis by blast
  qed
qed

lemma emits_caught_ok_load_weight_if_possible: "emits caught_ok (load_weight_if_possible env m k)"
  unfolding emits_def
proof (intro allI impI)
  fix s r s' assume run: "load_weight_if_possible env m k s = (r, s')"
  have "emits (\<lambda>x. True) (load_weight_if_possible env m k)"
    unfolding load_weight_if_possible_def by (intro emits_intros) simp_all
  from emitsD[OF this run] load_weight_if_possible_steps[OF run]
  show "args s' = args s \<and> (\<exists>new. trace s' = trace s @ new \<and> list_all caught_ok new)"
    by simp
qed


lemma emits_caught_ok_fit: "emits caught_ok (fit env train_df valid_x valid_y)"
  unfolding fit_def
  by (intro emits_caught_ok_load_weight_if_possible emits_return emits_args_get emits_attr_of
      emits_lift emits_print emits_call emits_bind emits_if emits_case_prod)
    (simp_all add: caught_ok_def)

lemma emits_caught_ok_loop_test:
  "emits caught_ok
     (pbind (lift (Subscript ''val_loss'') (val_losses lh)) (\<lambda>vs. lift NpMin (np_min vs)))"
  by (intro emits_intros) (simp_all add: caught_ok_def)

subsection \<open>The loop\<close>

lemma main_loop_steps:
  assumes run: "main_loop env train_df valid_x valid_y s = Some y"
  shows "args (snd y) = args s \<and>
     (\<exists>new. trace (snd y) = trace s @ new \<and> propagated (fst y) new \<and> list_all caught_ok new)"
proof (rule main_loop.raw_induct[where P = "\<lambda>env train_df valid_x valid_y s y.
     args (snd y) = args s \<and>
     (\<exists>new. trace (snd y) = trace s @ new \<and> propagated (fst y) new \<and> list_all caught_ok new)",
     OF _ run])
  fix loop :: "('a, 'b, 'c, 'd, 'e) env \<Rightarrow> 'b list \<Rightarrow> 'c \<Rightarrow> 'c \<Rightarrow> ('a, ('b, 'c, 'd, 'e) event) pystate \<Rightarrow>
     ((exn + unit) \<times> ('a, ('b, 'c, 'd, 'e) event) pystate) option"
    and env df vx vy s y
  assume IH: "\<And>env df vx vy s y. loop env df vx vy s = Some y \<Longrightarrow>
       args (snd y) = args s \<and>
       (\<exists>new. trace (snd y) = trace s @ new \<and> propagated (fst y) new \<and> list_all caught_ok new)"
    and body: "(case fit env df vx vy s of
       (Inl e, s') \<Rightarrow> Some (Inl e, s')
     | (Inr loss_history, s') \<Rightarrow>
         (case pbind (lift (Subscript ''val_loss'') (val_losses loss_history))
                 (\<lambda>vs. lift NpMin (np_min vs)) s' of
            (Inl e, s'') \<Rightarrow> Some (Inl e, s'')
          | (Inr m, s'') \<Rightarrow>
              if m < 0.2 then Some (Inr (), s'')
              else loop env df vx vy s'')) = Some y"
  obtain r1 s1 where f: "fit env df vx vy s = (r1, s1)" by (cases "fit env df vx vy s")
  from propagatesD[OF propagates_fit f] obtain n1 where t1: "trace s1 = trace s @ n1"
    and p1: "propagated r1 n1" by blast
  from emitsD[OF emits_caught_ok_fit f] t1 have a1: "args s1 = args s"
    and c1: "list_all caught_ok n1" by auto
  show "args (snd y) = args s \<and>
     (\<exists>new. trace (snd y) = trace s @ new \<and> propagated (fst y) new \<and> list_all caught_ok new)"
  proof (cases r1)
    case (Inl e)
    with body f have y: "y = (Inl e, s1)" by auto
    from p1 Inl have "propagated (Inl e :: exn + unit) n1" by (simp add: propagated_Inl_any)
    with y t1 a1 c1 show ?thesis by auto
  next
    case (Inr lh)
    with p1 have h1: "list_all handled n1" by simp
    let ?test = "pbind (lift (Subscript ''val_loss'') (val_losses lh)) (\<lambda>vs. lift NpMin (np_min vs))"
    obtain r2 s2 where t: "?test s1 = (r2, s2)" by (cases "?test s1")
    from propagatesD[OF propagates_loop_test t] obtain n2 where t2: "trace s2 = trace s1 @ n2"
      and p2: "propagated r2 n2" by blast
    from emitsD[OF emits_caught_ok_loop_test t] t2 have a2: "args s2 = args s1"
      and c2: "list_all caught_ok n2" by auto
    have t12: "trace s2 = trace s @ (n1 @ n2)" using t1 t2 by simp
    have c12: "list_all caught_ok (n1 @ n2)" using c1 c2 by simp
    show ?thesis
    proof (cases r2)
      case (Inl e)
      with body f Inr t have y: "y = (Inl e, s2)" by auto
      from p2 Inl have "propagated (Inl e :: exn + unit) n2" by (simp add: propagated_Inl_any)
      from propagated_append[OF h1 this] y t12 c12 a1 a2 show ?thesis by auto
    next
      case r2: (Inr m)
      with p2 have h12: "list_all handled (n1 @ n2)" using h1 by simp
      show ?thesis
      proof (cases "m < 0.2")
        case True
        with body f Inr t r2 have y: "y = (Inr (), s2)" by auto
        with t12 h12 c12 a1 a2 show ?thesis by auto
      next
        case False
        with body f Inr t r2 have "loop env df vx vy s2 = Some y" by auto
        from IH[OF this] obtain n3 where a3: "args (snd y) = args s2"
          and t3: "trace (snd y) = trace s2 @ n3"
          and p3: "propagated (fst y) n3" and c3: "list_all caught_ok n3" by blast
        from propagated_append[OF h12 p3] t12 t3 c12 c3 a1 a2 a3
        have "args (snd y) = args s \<and> trace (snd y) = trace s @ ((n1 @ n2) @ n3) \<and>
            propagated (fst y) ((n1 @ n2) @ n3) \<and> list_all caught_ok ((n1 @ n2) @ n3)"
          by simp
        then show ?thesis by blast
      qed
    qed
  qed
qed

lemma main_loop_args:
  "main_loop env train_df valid_x valid_y s = Some (r, s') \<Longrightarrow> args s' = args s"
  by (drule main_loop_steps) simp

lemma main_args:
  assumes "main env to_float scan argv s = Some (r, s')" and "parse_args to_float scan argv = Inr a"
  shows "args s' = a"
proof -
  obtain r1 s1 where ld: "load_data env (s\<lparr>args := a\<rparr>) = (r1, s1)"
    by (cases "load_data env (s\<lparr>args := a\<rparr>)")
  from load_data_args[OF ld] have a1: "args s1 = a" by simp
  show ?thesis
  proof (cases r1)
    case (Inl e)
    with assms ld have "s' = s1" by (simp add: main_def)
    with a1 show ?thesis by simp
  next
    case (Inr t)
    obtain df vx vy where t: "t = (df, vx, vy)" by (cases t)
    with assms ld Inr have "main_loop env df vx vy s1 = Some (r, s')" by (simp add: main_def)
    from main_loop_args[OF this] a1 show ?thesis by simp
  qed
qed

lemma np_min_Min:
  assumes "concat vs \<noteq> []"
  shows "np_min vs = Inr (Min (set (concat vs)))"
proof (cases "concat vs")
  case Nil
  with assms show ?thesis by simp
next
  case (Cons a list)
  then have "np_min vs = Inr (fold min list a)" by (simp add: np_min_def)
  also have "fold min list a = Min (set (a # list))" by (rule Min.set_eq_fold[symmetric])
  finally show ?thesis using Cons by simp
qed

subsection \<open>The loading of the weights\<close>


subsection \<open>The parser\<close>

lemma ap_dests:
  "map dest ap =
     [''model_name'', ''learning_rate'', ''train_only_top'', ''classify_mode'', ''load_weights'']"
  by (simp add: ap_def dest_def)

lemma ap_defaults:
  "foldl (\<lambda>ns a. ns(dest a \<mapsto> arg_default a)) Map.empty ap = ap_default_map"
  unfolding ap_def foldl.simps ap_default_map_def by (simp add: dest_def)

lemma parse_args_scan:
  "scan ap argv = Inr acts \<Longrightarrow>
   parse_args to_float scan argv = run_actions to_float acts ap_default_map"
  by (simp add: parse_args_def ap_defaults)

lemma dom_ap_default_map:
  "dom ap_default_map =
     {''model_name'', ''learning_rate'', ''train_only_top'', ''classify_mode'', ''load_weights''}"
  unfolding ap_default_map_def by auto

lemma ap_flag:
  "b \<in> set ap \<Longrightarrow> dest b \<in> {''train_only_top'', ''classify_mode'', ''load_weights''} \<Longrightarrow>
   action b = StoreTrue"
  by (auto simp: ap_def dest_def)

lemma ap_model_name:
  "b \<in> set ap \<Longrightarrow> dest b = ''model_name'' \<Longrightarrow> action b = Store \<and> argtype b = TStr"
  by (auto simp: ap_def dest_def)

lemma ap_learning_rate:
  "b \<in> set ap \<Longrightarrow> dest b = ''learning_rate'' \<Longrightarrow> action b = Store \<and> argtype b = TFloat"
  by (auto simp: ap_def dest_def)

lemma dest_in_keys:
  "b \<in> set ap \<Longrightarrow>
   dest b \<in> {''model_name'', ''learning_rate'', ''train_only_top'', ''classify_mode'', ''load_weights''}"
  by (auto simp: ap_def dest_def)

lemma run_action_key:
  "run_action to_float b v ns = Inr ns' \<Longrightarrow> \<exists>x. ns' = ns(dest b \<mapsto> x)"
  by (cases v; cases "action b") (auto split: option.splits)

lemma given_Nil [simp]: "given k [] = []"
  by (simp add: given_def)

lemma given_Cons:
  "given k ((b, v) # rest) =
     (if dest b = k then (case v of None \<Rightarrow> [] | Some x \<Rightarrow> [x]) else []) @ given k rest"
  by (simp add: given_def)

lemma run_actions_dom:
  "run_actions to_float acts ns = Inr a \<Longrightarrow> dom a = dom ns \<union> dest ` fst ` set acts"
proof (induction acts arbitrary: ns)
  case Nil
  then show ?case by simp
next
  case (Cons x acts)
  obtain b v where x: "x = (b, v)" by (cases x)
  from Cons.prems x obtain ns' where ra: "run_action to_float b v ns = Inr ns'"
    and rest: "run_actions to_float acts ns' = Inr a" by (auto split: sum.splits)
  from run_action_key[OF ra] obtain y where "ns' = ns(dest b \<mapsto> y)" by blast
  with Cons.IH[OF rest] x show ?case by auto
qed

lemma run_actions_flag:
  assumes "run_actions to_float acts ns = Inr a" and "fst ` set acts \<subseteq> D"
    and "\<And>b. b \<in> D \<Longrightarrow> dest b = k \<Longrightarrow> action b = StoreTrue"
  shows "a k = (if k \<in> dest ` fst ` set acts then Some (PBool True) else ns k)"
  using assms(1,2)
proof (induction acts arbitrary: ns)
  case Nil
  then show ?case by simp
next
  case (Cons x acts)
  obtain b v where x: "x = (b, v)" by (cases x)
  from Cons.prems x obtain ns' where ra: "run_action to_float b v ns = Inr ns'"
    and rest: "run_actions to_float acts ns' = Inr a" by (auto split: sum.splits)
  from Cons.prems(2) x have bD: "b \<in> D" and sub: "fst ` set acts \<subseteq> D" by auto
  note IH = Cons.IH[OF rest sub]
  show ?case
  proof (cases "dest b = k")
    case True
    with assms(3)[OF bD] have "action b = StoreTrue" by simp
    with ra have "ns' = ns(dest b \<mapsto> PBool True)" by (cases v) auto
    with IH True x show ?thesis by auto
  next
    case False
    from run_action_key[OF ra] obtain y where "ns' = ns(dest b \<mapsto> y)" by blast
    with IH False x show ?thesis by auto
  qed
qed

lemma run_actions_str:
  assumes "run_actions to_float acts ns = Inr a" and "fst ` set acts \<subseteq> D"
    and "\<And>b. b \<in> D \<Longrightarrow> dest b = k \<Longrightarrow> action b = Store \<and> argtype b = TStr"
  shows "a k = (if given k acts = [] then ns k else Some (PStr (last (given k acts))))"
  using assms(1,2)
proof (induction acts arbitrary: ns)
  case Nil
  then show ?case by simp
next
  case (Cons x acts)
  obtain b v where x: "x = (b, v)" by (cases x)
  from Cons.prems x obtain ns' where ra: "run_action to_float b v ns = Inr ns'"
    and rest: "run_actions to_float acts ns' = Inr a" by (auto split: sum.splits)
  from Cons.prems(2) x have bD: "b \<in> D" and sub: "fst ` set acts \<subseteq> D" by auto
  note IH = Cons.IH[OF rest sub]
  show ?case
  proof (cases "dest b = k")
    case True
    with assms(3)[OF bD] have k: "action b = Store" "argtype b = TStr" by simp_all
    with ra obtain y where v: "v = Some y" and ns': "ns' = ns(dest b \<mapsto> PStr y)"
      by (cases v) auto
    with IH True x show ?thesis by (simp add: given_Cons)
  next
    case False
    from run_action_key[OF ra] obtain y where "ns' = ns(dest b \<mapsto> y)" by blast
    with IH False x show ?thesis by (simp add: given_Cons)
  qed
qed

lemma run_actions_float:
  assumes "run_actions to_float acts ns = Inr a" and "fst ` set acts \<subseteq> D"
    and "\<And>b. b \<in> D \<Longrightarrow> dest b = k \<Longrightarrow> action b = Store \<and> argtype b = TFloat"
  shows "\<exists>xs. map to_float (given k acts) = map Some xs \<and>
      a k = (if xs = [] then ns k else Some (PFloat (last xs)))"
  using assms(1,2)
proof (induction acts arbitrary: ns)
  case Nil
  then show ?case by simp
next
  case (Cons x acts)
  obtain b v where x: "x = (b, v)" by (cases x)
  from Cons.prems x obtain ns' where ra: "run_action to_float b v ns = Inr ns'"
    and rest: "run_actions to_float acts ns' = Inr a" by (auto split: sum.splits)
  from Cons.prems(2) x have bD: "b \<in> D" and sub: "fst ` set acts \<subseteq> D" by auto
  from Cons.IH[OF rest sub] obtain xs where m: "map to_float (given k acts) = map Some xs"
    and ak: "a k = (if xs = [] then ns' k else Some (PFloat (last xs)))" by blast
  show ?case
  proof (cases "dest b = k")
    case True
    with assms(3)[OF bD] have k: "action b = Store" "argtype b = TFloat" by simp_all
    with ra obtain y z where v: "v = Some y" and z: "to_float y = Some z"
      and ns': "ns' = ns(dest b \<mapsto> PFloat z)"
      by (cases v) (auto split: option.splits)
    from m z True x v have "map to_float (given k (x # acts)) = map Some (z # xs)"
      by (simp add: given_Cons)
    moreover from ak ns' True have "a k = (if z # xs = [] then ns k else Some (PFloat (last (z # xs))))"
      by simp
    ultimately show ?thesis by blast
  next
    case False
    from run_action_key[OF ra] obtain y where "ns' = ns(dest b \<mapsto> y)" by blast
    with ak False have "a k = (if xs = [] then ns k else Some (PFloat (last xs)))" by simp
    moreover from m False x have "map to_float (given k (x # acts)) = map Some xs"
      by (simp add: given_Cons)
    ultimately show ?thesis by blast
  qed
qed

lemma run_actions_float_default:
  assumes "run_actions to_float acts ns = Inr a" and "fst ` set acts \<subseteq> D"
    and "\<And>b. b \<in> D \<Longrightarrow> dest b = k \<Longrightarrow> action b = Store \<and> argtype b = TFloat"
    and "ns k = Some (PFloat x0)"
  shows "\<exists>xs. map to_float (given k acts) = map Some xs \<and>
      a k = Some (PFloat (last (x0 # xs)))"
proof -
  from run_actions_float[OF assms(1-3)] obtain xs
    where m: "map to_float (given k acts) = map Some xs"
      and ak: "a k = (if xs = [] then ns k else Some (PFloat (last xs)))" by blast
  from ak assms(4) have "a k = Some (PFloat (last (x0 # xs)))" by simp
  with m show ?thesis by blast
qed

lemma image_subset_all: "A \<subseteq> B \<Longrightarrow> (\<And>b. b \<in> B \<Longrightarrow> f b \<in> K) \<Longrightarrow> f ` A \<subseteq> K"
  by auto

lemma dom_absorb: "D = K \<union> X \<Longrightarrow> X \<subseteq> K \<Longrightarrow> D = K"
  by auto

subsection \<open>Runs in the concrete environment\<close>

lemmas stub_defs = stub_env_def stub_model_def stub_args_def stub_fit_args_def
  stub_fit_events_def stub_load_events_def

lemma stub_registry: "AVAILABLE_MODELS (MODELS stub_env) = [''simple_unet'' \<mapsto> stub_model]"
  by (simp add: AVAILABLE_MODELS_def stub_env_def stub_model_def)

lemma stub_load_data_run:
  "args s = stub_args \<Longrightarrow>
   load_data stub_env s = (Inr ([(), (), ()], (), ()), s\<lparr>trace := trace s @ stub_load_events\<rparr>)"
  by (simp add: load_data_def prog_defs stub_defs)

lemma stub_fit_run:
  "args s = stub_args \<Longrightarrow>
   fit stub_env [(), (), ()] () () s =
     (Inr [[''val_loss'' \<mapsto> [if world s = 0 then 0.5 else 0.1]]],
      s\<lparr>world := Suc (world s), trace := trace s @ stub_fit_events\<rparr>)"
  by (simp add: fit_def load_weight_if_possible_def prog_defs AVAILABLE_MODELS_def calc_step_count_def
      isinstance_def PermissionError_def stub_defs)

lemma stub_loop_run:
  assumes "args s = stub_args" and "world s = 0"
  shows "main_loop stub_env [(), (), ()] () () s =
     Some (Inr (), s\<lparr>world := 2, trace := trace s @ stub_fit_events @ stub_fit_events\<rparr>)"
proof -
  let ?s1 = "s\<lparr>world := Suc (world s), trace := trace s @ stub_fit_events\<rparr>"
  have f1: "fit stub_env [(), (), ()] () () s = (Inr [[''val_loss'' \<mapsto> [0.5]]], ?s1)"
    using stub_fit_run[of s] assms by simp
  have f2: "fit stub_env [(), (), ()] () () ?s1 =
     (Inr [[''val_loss'' \<mapsto> [0.1]]],
      s\<lparr>world := 2, trace := trace s @ stub_fit_events @ stub_fit_events\<rparr>)"
    using stub_fit_run[of ?s1] assms by simp
  have "main_loop stub_env [(), (), ()] () () s = main_loop stub_env [(), (), ()] () () ?s1"
    by (subst main_loop.simps) (simp add: f1 pbind_def lift_def return_p_def np_min_def)
  also have "\<dots> = Some (Inr (), s\<lparr>world := 2, trace := trace s @ stub_fit_events @ stub_fit_events\<rparr>)"
    by (subst main_loop.simps) (simp add: f2 pbind_def lift_def return_p_def np_min_def)
  finally show ?thesis .
qed

lemma stub_scan_lw: "stub_scan ap [''-lw''] = Inr [(ap ! 4, None)]"
  by (simp add: ap_def)

lemma stub_parse: "parse_args stub_to_float stub_scan [''-lw''] = Inr stub_args"
  unfolding parse_args_scan[where scan = stub_scan and argv = "[''-lw'']", OF stub_scan_lw]
    ap_default_map_def
  by (simp add: ap_def dest_def stub_args_def)


lemma stub_main_run:
  "main stub_env stub_to_float stub_scan [''-lw''] \<lparr>world = 0, trace = [], args = Map.empty\<rparr> =
     Some (Inr (), \<lparr>world = 2, trace = stub_load_events @ stub_fit_events @ stub_fit_events,
       args = stub_args\<rparr>)"
  using stub_load_data_run[of "\<lparr>world = 0, trace = [], args = stub_args\<rparr>"]
    stub_loop_run[of "\<lparr>world = 0, trace = stub_load_events, args = stub_args\<rparr>"]
  by (simp add: main_def stub_parse)


section \<open>The argument dictionary is not written after parsing\<close>

text \<open>
  C7. The argument dictionary is immutable after parse: whatever \<^verbatim>\<open>load_data\<close>, \<^verbatim>\<open>fit\<close> and
  the main loop do and however they end, the dictionary after the run is the dictionary
  before it (no key added, removed or overwritten); and at the end of the whole program it
  is still the dictionary that the parser produced.
\<close>

theorem args_unchanged:
  "(load_data env s = (ra, sa) \<longrightarrow> args sa = args s) \<and>
   (fit env train_df valid_x valid_y s = (rb, sb) \<longrightarrow> args sb = args s) \<and>
   (main_loop env train_df valid_x valid_y s = Some (rc, sc) \<longrightarrow> args sc = args s) \<and>
   (parse_args to_float scan argv = Inr a \<and> main env to_float scan argv s = Some (rd, sd) \<longrightarrow>
      args sd = a)"
proof (intro conjI impI)
  show "args sa = args s" if "load_data env s = (ra, sa)"
    using that by (rule load_data_args)
  show "args sb = args s" if "fit env train_df valid_x valid_y s = (rb, sb)"
    using that by (rule fit_args)
  show "args sc = args s" if "main_loop env train_df valid_x valid_y s = Some (rc, sc)"
    using that by (rule main_loop_args)
  show "args sd = a"
    if "parse_args to_float scan argv = Inr a \<and> main env to_float scan argv s = Some (rd, sd)"
    using that main_args[of env to_float scan argv s rd sd a] by simp
qed

theorem args_unchanged_witness:
  "args (snd (load_data stub_env stub_state)) = stub_args \<and>
   args (snd (fit stub_env [(), (), ()] () () stub_state)) = stub_args \<and>
   main_loop stub_env [(), (), ()] () () stub_state =
     Some (Inr (), \<lparr>world = 2, trace = stub_fit_events @ stub_fit_events, args = stub_args\<rparr>) \<and>
   parse_args stub_to_float stub_scan [''-lw''] = Inr stub_args \<and>
   main stub_env stub_to_float stub_scan [''-lw''] \<lparr>world = 0, trace = [], args = Map.empty\<rparr> =
     Some (Inr (), \<lparr>world = 2, trace = stub_load_events @ stub_fit_events @ stub_fit_events,
       args = stub_args\<rparr>)"
proof -
  have l: "main_loop stub_env [(), (), ()] () () stub_state =
     Some (Inr (), \<lparr>world = 2, trace = stub_fit_events @ stub_fit_events, args = stub_args\<rparr>)"
    using stub_loop_run[of stub_state] by (simp add: stub_state_def)
  note A = args_unchanged[where env = stub_env and s = stub_state
      and ra = "fst (load_data stub_env stub_state)" and sa = "snd (load_data stub_env stub_state)"
      and train_df = "[(), (), ()]" and valid_x = "()" and valid_y = "()"
      and rb = "fst (fit stub_env [(), (), ()] () () stub_state)"
      and sb = "snd (fit stub_env [(), (), ()] () () stub_state)"]
  from A l stub_parse stub_main_run show ?thesis
    by (simp add: stub_state_def)
qed


section \<open>Workers and queue size\<close>




section \<open>Output files\<close>




section \<open>Steps per epoch\<close>





section \<open>A model name that is not registered\<close>

text \<open>
  C9. When the value of \<^verbatim>\<open>model_name\<close> is not a key of the registry, \<^verbatim>\<open>fit\<close> ends with an
  exception that nothing handles, before it makes any call: the world is as before, and
  the only step that the run adds to the record is the failing one, which is no call. The
  exception is the \<^verbatim>\<open>AttributeError\<close> of the first method lookup on \<^verbatim>\<open>None\<close> (or the
  \<^verbatim>\<open>KeyError\<close> of the line before it, when the dictionary has no key \<^verbatim>\<open>classify_mode\<close>,
  which a parsed dictionary always has).
\<close>

theorem fit_unknown_model:
  assumes "args s ''model_name'' = Some v"
    and "v \<notin> PStr ` dom (AVAILABLE_MODELS (MODELS env))"
  shows "fit env train_df valid_x valid_y s =
     (case args s ''classify_mode'' of
        None \<Rightarrow>
          (Inl KeyError, s\<lparr>trace := trace s @ [(Subscript ''classify_mode'', Some KeyError)]\<rparr>)
      | Some c \<Rightarrow>
          (Inl AttributeError,
           s\<lparr>trace := trace s @
              [(GetAttr (if truthy c then ''get_classifier_model'' else ''get_model''),
                Some AttributeError)]\<rparr>))"
proof -
  from assms(2) have n: "registry_get (AVAILABLE_MODELS (MODELS env)) v = None"
    by (rule registry_get_None)
  show ?thesis
  proof (cases "args s ''classify_mode''")
    case None
    with assms(1) show ?thesis
      unfolding fit_def by (simp add: pbind_def args_get_def fail_def)
  next
    case (Some c)
    with assms(1) n show ?thesis
      unfolding fit_def by (simp add: pbind_def args_get_def attr_of_def fail_def)
  qed
qed

theorem fit_unknown_model_witness:
  "(stub_args(''model_name'' \<mapsto> PStr ''resnet'')) ''model_name'' = Some (PStr ''resnet'') \<and>
   PStr ''resnet'' \<notin> PStr ` dom (AVAILABLE_MODELS (MODELS stub_env)) \<and>
   fit stub_env [(), (), ()] () ()
       \<lparr>world = 0, trace = [], args = stub_args(''model_name'' \<mapsto> PStr ''resnet'')\<rparr> =
     (Inl AttributeError,
      \<lparr>world = 0, trace = [(GetAttr ''get_model'', Some AttributeError)],
       args = stub_args(''model_name'' \<mapsto> PStr ''resnet'')\<rparr>)"
proof -
  have d: "PStr ''resnet'' \<notin> PStr ` dom (AVAILABLE_MODELS (MODELS stub_env))"
    by (simp add: stub_registry)
  from fit_unknown_model[of "\<lparr>world = 0, trace = [], args = stub_args(''model_name'' \<mapsto> PStr ''resnet'')\<rparr>"
      "PStr ''resnet''" stub_env "[(), (), ()]" "()" "()"] d
  show ?thesis by (simp add: stub_args_def)
qed


section \<open>The branch of \<^verbatim>\<open>load_data\<close>\<close>




section \<open>The one handler\<close>






section \<open>The retry loop\<close>

text \<open>
  C2. After a call of \<^verbatim>\<open>fit\<close> that returns its histories (each with a \<^verbatim>\<open>val_loss\<close> entry,
  not all empty), the loop ends exactly when the least recorded validation loss is
  strictly below 0.2; otherwise it goes on as the loop started afresh in the state that
  \<^verbatim>\<open>fit\<close> left, that is, it calls \<^verbatim>\<open>fit\<close> again with the same training frame, the same
  validation arrays and the same, unchanged argument dictionary.
\<close>

theorem main_loop_round:
  assumes "fit env train_df valid_x valid_y s = (Inr loss_history, s')"
    and "val_losses loss_history = Inr vs" and "concat vs \<noteq> []"
  shows "main_loop env train_df valid_x valid_y s =
      (if Min (set (concat vs)) < 0.2 then Some (Inr (), s')
       else main_loop env train_df valid_x valid_y s') \<and>
     args s' = args s"
proof
  have "main_loop env train_df valid_x valid_y s =
    (case fit env train_df valid_x valid_y s of
       (Inl e, s') \<Rightarrow> Some (Inl e, s')
     | (Inr loss_history, s') \<Rightarrow>
         (case pbind (lift (Subscript ''val_loss'') (val_losses loss_history))
                 (\<lambda>vs. lift NpMin (np_min vs)) s' of
            (Inl e, s'') \<Rightarrow> Some (Inl e, s'')
          | (Inr m, s'') \<Rightarrow>
              if m < 0.2 then Some (Inr (), s'')
              else main_loop env train_df valid_x valid_y s''))"
    by (rule main_loop.simps)
  also have "\<dots> = (if Min (set (concat vs)) < 0.2 then Some (Inr (), s')
       else main_loop env train_df valid_x valid_y s')"
    using assms by (simp add: pbind_def lift_def return_p_def np_min_Min)
  finally show "main_loop env train_df valid_x valid_y s =
      (if Min (set (concat vs)) < 0.2 then Some (Inr (), s')
       else main_loop env train_df valid_x valid_y s')" .
  from assms(1) show "args s' = args s" by (rule fit_args)
qed

theorem main_loop_round_witness:
  "fit stub_env [(), (), ()] () () stub_state =
     (Inr [[''val_loss'' \<mapsto> [0.5]]], \<lparr>world = 1, trace = stub_fit_events, args = stub_args\<rparr>) \<and>
   val_losses [[''val_loss'' \<mapsto> [0.5]]] = Inr [[0.5]] \<and> concat [[0.5 :: real]] \<noteq> [] \<and>
   \<not> Min (set (concat [[0.5 :: real]])) < 0.2 \<and>
   main_loop stub_env [(), (), ()] () () stub_state =
     main_loop stub_env [(), (), ()] () () \<lparr>world = 1, trace = stub_fit_events, args = stub_args\<rparr> \<and>
   fit stub_env [(), (), ()] () () \<lparr>world = 1, trace = stub_fit_events, args = stub_args\<rparr> =
     (Inr [[''val_loss'' \<mapsto> [0.1]]],
      \<lparr>world = 2, trace = stub_fit_events @ stub_fit_events, args = stub_args\<rparr>) \<and>
   val_losses [[''val_loss'' \<mapsto> [0.1]]] = Inr [[0.1]] \<and>
   Min (set (concat [[0.1 :: real]])) < 0.2 \<and>
   main_loop stub_env [(), (), ()] () () \<lparr>world = 1, trace = stub_fit_events, args = stub_args\<rparr> =
     Some (Inr (), \<lparr>world = 2, trace = stub_fit_events @ stub_fit_events, args = stub_args\<rparr>)"
proof -
  let ?s1 = "\<lparr>world = 1, trace = stub_fit_events, args = stub_args\<rparr>
     :: (nat, (unit, unit, unit, unit) event) pystate"
  let ?s2 = "\<lparr>world = 2, trace = stub_fit_events @ stub_fit_events, args = stub_args\<rparr>
     :: (nat, (unit, unit, unit, unit) event) pystate"
  have f1: "fit stub_env [(), (), ()] () () stub_state = (Inr [[''val_loss'' \<mapsto> [0.5]]], ?s1)"
    using stub_fit_run[of stub_state] by (simp add: stub_state_def)
  have f2: "fit stub_env [(), (), ()] () () ?s1 = (Inr [[''val_loss'' \<mapsto> [0.1]]], ?s2)"
    using stub_fit_run[of ?s1] by simp
  have v1: "val_losses [[''val_loss'' \<mapsto> [0.5]]] = Inr [[0.5]]" by simp
  have v2: "val_losses [[''val_loss'' \<mapsto> [0.1]]] = Inr [[0.1]]" by simp
  have c1: "concat [[0.5 :: real]] \<noteq> []" and c2: "concat [[0.1 :: real]] \<noteq> []" by simp_all
  from main_loop_round[OF f1 v1 c1] main_loop_round[OF f2 v2 c2] f1 f2
  show ?thesis by simp
qed


section \<open>The arguments of the command line\<close>

text \<open>
  C3. The parser declares exactly five arguments, stored under the keys \<^verbatim>\<open>model_name\<close>,
  \<^verbatim>\<open>learning_rate\<close>, \<^verbatim>\<open>train_only_top\<close>, \<^verbatim>\<open>classify_mode\<close> and \<^verbatim>\<open>load_weights\<close>. When the
  library finds no option on the command line, the dictionary holds the defaults:
  \<^verbatim>\<open>simple_unet\<close>, 0.001 and three times false. Whatever options the library finds among
  those declared, a parse that succeeds gives a dictionary with exactly these five keys,
  in which each of the three flags is true exactly when the library found it, the model
  name is the last string given for it (the default when none was given), and the learning
  rate is the float converted from the last string given for it (the default when none was
  given). (How the library finds the options in the tokens is the library's; its help
  option ends the program and gives no dictionary.)
\<close>

theorem parse_args_five_flags:
  "map dest ap =
     [''model_name'', ''learning_rate'', ''train_only_top'', ''classify_mode'', ''load_weights''] \<and>
   (scan ap argv = Inr [] \<longrightarrow>
      parse_args to_float scan argv =
        Inr [''model_name'' \<mapsto> PStr ''simple_unet'', ''learning_rate'' \<mapsto> PFloat 0.001,
             ''train_only_top'' \<mapsto> PBool False, ''classify_mode'' \<mapsto> PBool False,
             ''load_weights'' \<mapsto> PBool False]) \<and>
   (scan ap argv = Inr acts \<and> fst ` set acts \<subseteq> set ap \<and>
    parse_args to_float scan argv = Inr d \<longrightarrow>
      dom d = {''model_name'', ''learning_rate'', ''train_only_top'', ''classify_mode'',
               ''load_weights''} \<and>
      d ''train_only_top'' = Some (PBool (''train_only_top'' \<in> dest ` fst ` set acts)) \<and>
      d ''classify_mode'' = Some (PBool (''classify_mode'' \<in> dest ` fst ` set acts)) \<and>
      d ''load_weights'' = Some (PBool (''load_weights'' \<in> dest ` fst ` set acts)) \<and>
      d ''model_name'' = Some (PStr (last (''simple_unet'' # given ''model_name'' acts))) \<and>
      (\<exists>xs. map to_float (given ''learning_rate'' acts) = map Some xs \<and>
         d ''learning_rate'' = Some (PFloat (last (0.001 # xs)))))"
proof (intro conjI impI)
  show "map dest ap =
     [''model_name'', ''learning_rate'', ''train_only_top'', ''classify_mode'', ''load_weights'']"
    by (rule ap_dests)
  show "parse_args to_float scan argv =
        Inr [''model_name'' \<mapsto> PStr ''simple_unet'', ''learning_rate'' \<mapsto> PFloat 0.001,
             ''train_only_top'' \<mapsto> PBool False, ''classify_mode'' \<mapsto> PBool False,
             ''load_weights'' \<mapsto> PBool False]"
    if "scan ap argv = Inr []"
    unfolding parse_args_scan[where scan = scan and argv = argv, OF that] ap_default_map_def
    by simp
next
  assume h: "scan ap argv = Inr acts \<and> fst ` set acts \<subseteq> set ap \<and>
    parse_args to_float scan argv = Inr d"
  then have sc: "scan ap argv = Inr acts" and sub: "fst ` set acts \<subseteq> set ap"
    and "parse_args to_float scan argv = Inr d" by simp_all
  then have run: "run_actions to_float acts ap_default_map = Inr d"
    by (simp add: parse_args_scan)
  have keys: "dest ` fst ` set acts \<subseteq>
      {''model_name'', ''learning_rate'', ''train_only_top'', ''classify_mode'', ''load_weights''}"
    using sub dest_in_keys by (rule image_subset_all)
  show "dom d = {''model_name'', ''learning_rate'', ''train_only_top'', ''classify_mode'',
               ''load_weights''}"
    using run_actions_dom[OF run] keys unfolding dom_ap_default_map by (rule dom_absorb)
  have tt: "action b = StoreTrue" if "b \<in> set ap" "dest b = ''train_only_top''" for b
    using ap_flag[OF that(1)] that(2) by simp
  have cl: "action b = StoreTrue" if "b \<in> set ap" "dest b = ''classify_mode''" for b
    using ap_flag[OF that(1)] that(2) by simp
  have lw: "action b = StoreTrue" if "b \<in> set ap" "dest b = ''load_weights''" for b
    using ap_flag[OF that(1)] that(2) by simp
  show "d ''train_only_top'' = Some (PBool (''train_only_top'' \<in> dest ` fst ` set acts))"
    using run_actions_flag[OF run sub tt] by (simp add: ap_default_map_def)
  show "d ''classify_mode'' = Some (PBool (''classify_mode'' \<in> dest ` fst ` set acts))"
    using run_actions_flag[OF run sub cl] by (simp add: ap_default_map_def)
  show "d ''load_weights'' = Some (PBool (''load_weights'' \<in> dest ` fst ` set acts))"
    using run_actions_flag[OF run sub lw] by (simp add: ap_default_map_def)
  show "d ''model_name'' = Some (PStr (last (''simple_unet'' # given ''model_name'' acts)))"
    using run_actions_str[OF run sub ap_model_name] by (simp add: ap_default_map_def)
  show "\<exists>xs. map to_float (given ''learning_rate'' acts) = map Some xs \<and>
         d ''learning_rate'' = Some (PFloat (last (0.001 # xs)))"
    by (rule run_actions_float_default[OF run sub ap_learning_rate])
      (simp_all add: ap_default_map_def)
qed

theorem parse_args_five_flags_witness:
  "stub_scan ap [] = Inr [] \<and>
   parse_args stub_to_float stub_scan [] =
     Inr [''model_name'' \<mapsto> PStr ''simple_unet'', ''learning_rate'' \<mapsto> PFloat 0.001,
          ''train_only_top'' \<mapsto> PBool False, ''classify_mode'' \<mapsto> PBool False,
          ''load_weights'' \<mapsto> PBool False] \<and>
   stub_scan ap [''--model_name'', ''ternaus'', ''-lr'', ''0.01'', ''-cl''] =
     Inr [(ap ! 0, Some ''ternaus''), (ap ! 1, Some ''0.01''), (ap ! 3, None)] \<and>
   fst ` set [(ap ! 0, Some ''ternaus''), (ap ! 1, Some ''0.01''), (ap ! 3, None)] \<subseteq> set ap \<and>
   parse_args stub_to_float stub_scan [''--model_name'', ''ternaus'', ''-lr'', ''0.01'', ''-cl''] =
     Inr [''train_only_top'' \<mapsto> PBool False, ''load_weights'' \<mapsto> PBool False,
          ''model_name'' \<mapsto> PStr ''ternaus'', ''learning_rate'' \<mapsto> PFloat 0.01,
          ''classify_mode'' \<mapsto> PBool True] \<and>
   dom [''train_only_top'' \<mapsto> PBool False, ''load_weights'' \<mapsto> PBool False,
        ''model_name'' \<mapsto> PStr ''ternaus'', ''learning_rate'' \<mapsto> PFloat 0.01,
        ''classify_mode'' \<mapsto> PBool True] =
     {''model_name'', ''learning_rate'', ''train_only_top'', ''classify_mode'', ''load_weights''}"
proof -
  let ?argv = "[''--model_name'', ''ternaus'', ''-lr'', ''0.01'', ''-cl'']"
  let ?acts = "[(ap ! 0, Some ''ternaus''), (ap ! 1, Some ''0.01''), (ap ! 3, None)]"
  let ?d = "[''train_only_top'' \<mapsto> PBool False, ''load_weights'' \<mapsto> PBool False,
          ''model_name'' \<mapsto> PStr ''ternaus'', ''learning_rate'' \<mapsto> PFloat 0.01,
          ''classify_mode'' \<mapsto> PBool True]"
  have s0: "stub_scan ap [] = Inr []" by simp
  have s1: "stub_scan ap ?argv = Inr ?acts" by (simp add: ap_def)
  have sub: "fst ` set ?acts \<subseteq> set ap" by (simp add: ap_def)
  have run: "parse_args stub_to_float stub_scan ?argv = Inr ?d"
    unfolding parse_args_scan[where scan = stub_scan and argv = ?argv, OF s1] ap_default_map_def
    by (simp add: ap_def dest_def stub_to_float_def)
  note T0 = parse_args_five_flags[where scan = stub_scan and argv = "[]" and to_float = stub_to_float]
  note T1 = parse_args_five_flags[where scan = stub_scan and argv = ?argv and to_float = stub_to_float
      and acts = ?acts and d = ?d]
  from T0[THEN conjunct2, THEN conjunct1, THEN mp, OF s0]
    T1[THEN conjunct2, THEN conjunct2, THEN mp, OF conjI[OF s1 conjI[OF sub run]], THEN conjunct1]
    s0 s1 sub run
  show ?thesis by (intro conjI)
qed

end
